theory Spec2Isabelle
  imports Main
begin

section \<open>Python values and built-ins used by seller.py\<close>

text \<open>
  The exceptions that the modelled code can raise. The specification names them by role:
  \<open>ValueError\<close> is its ParseError (from \<open>int()\<close>) and its InvalidArgument (from
  \<open>range()\<close>), \<open>AttributeError\<close> is its TypeMismatch (a value without \<open>.split\<close>).
\<close>

datatype pyerr = ValueError | TypeError | AttributeError | OverflowError | IndexError

text \<open>
  A cell of the distributor's spreadsheet as pandas hands it over. Text is kept as the
  UTF-8 bytes of the Python \<open>str\<close>: the code only compares strings for equality, splits
  at the ASCII full stop and deletes everything but the ASCII digits, and bytes of a
  multi-byte UTF-8 sequence are never ASCII, so these operations act on the encoding as
  they act on the code points. A float is given by what the code can observe of it: the
  text \<open>str()\<close> returns and the outcome of \<open>int()\<close> (truncation, or the error raised on
  nan and inf); floating-point arithmetic itself is not modelled.
\<close>

datatype pyval =
    PNone
  | PStr string
  | PInt int
  | PFloat string "pyerr + int"

fun is_PStr :: "pyval \<Rightarrow> bool" where
  "is_PStr (PStr s) = True"
| "is_PStr v = False"

definition is_digit :: "char \<Rightarrow> bool" where
  "is_digit c = (c \<in> set ''0123456789'')"

definition digit_char :: "nat \<Rightarrow> char" where
  "digit_char d = ''0123456789'' ! d"

definition digit_val :: "char \<Rightarrow> nat" where
  "digit_val c = of_char c - 48"

fun str_of_nat :: "nat \<Rightarrow> string" where
  "str_of_nat n =
     (if n < 10 then [digit_char n] else str_of_nat (n div 10) @ [digit_char (n mod 10)])"

declare str_of_nat.simps [simp del]

definition str_of_int :: "int \<Rightarrow> string" where
  "str_of_int i = (if i < 0 then CHR ''-'' # str_of_nat (nat (- i)) else str_of_nat (nat i))"

text \<open>\<open>str(v)\<close>.\<close>

fun py_str :: "pyval \<Rightarrow> string" where
  "py_str PNone = ''None''"
| "py_str (PStr s) = s"
| "py_str (PInt i) = str_of_int i"
| "py_str (PFloat s r) = s"

text \<open>
  \<open>int(s)\<close> on text, base ten: white space is stripped at both ends, one sign may lead,
  and the digits may be grouped by single underscores. The model reads ASCII: the
  non-ASCII decimal digits and spaces that Python also accepts are not recognised, and
  the interpreter's optional limit on the number of digits is not applied.
\<close>

definition is_space :: "char \<Rightarrow> bool" where
  "is_space c = (c \<in> set [CHR 0x09, CHR 0x0A, CHR 0x0B, CHR 0x0C, CHR 0x0D,
                            CHR 0x1C, CHR 0x1D, CHR 0x1E, CHR 0x1F, CHR 0x20])"

definition strip :: "string \<Rightarrow> string" where
  "strip s = rev (dropWhile is_space (rev (dropWhile is_space s)))"

fun digits_acc :: "nat \<Rightarrow> string \<Rightarrow> nat option" where
  "digits_acc a [] = Some a"
| "digits_acc a (c # cs) =
     (if is_digit c then digits_acc (10 * a + digit_val c) cs
      else if c = CHR ''_'' then
        (case cs of
           [] \<Rightarrow> None
         | d # ds \<Rightarrow> if is_digit d then digits_acc (10 * a + digit_val d) ds else None)
      else None)"

fun parse_nat :: "string \<Rightarrow> nat option" where
  "parse_nat [] = None"
| "parse_nat (c # cs) = (if is_digit c then digits_acc (digit_val c) cs else None)"

definition int_of_str :: "string \<Rightarrow> int option" where
  "int_of_str s =
     (case strip s of
        [] \<Rightarrow> None
      | c # cs \<Rightarrow>
          if c = CHR ''-'' then map_option (\<lambda>n. - int n) (parse_nat cs)
          else if c = CHR ''+'' then map_option int (parse_nat cs)
          else map_option int (parse_nat (c # cs)))"

text \<open>\<open>int(v)\<close>.\<close>

fun py_int :: "pyval \<Rightarrow> pyerr + int" where
  "py_int PNone = Inl TypeError"
| "py_int (PStr s) = (case int_of_str s of None \<Rightarrow> Inl ValueError | Some i \<Rightarrow> Inr i)"
| "py_int (PInt i) = Inr i"
| "py_int (PFloat s r) = r"

text \<open>\<open>s.split(c)\<close> for a separator of one character: never an empty list.\<close>

fun split_on :: "char \<Rightarrow> string \<Rightarrow> string list" where
  "split_on c [] = [[]]"
| "split_on c (x # xs) =
     (if x = c then [] # split_on c xs
      else (case split_on c xs of
              [] \<Rightarrow> [[x]]
            | p # ps \<Rightarrow> (x # p) # ps))"

text \<open>\<open>xs[0]\<close>.\<close>

definition item0 :: "'a list \<Rightarrow> pyerr + 'a" where
  "item0 xs = (case xs of [] \<Rightarrow> Inl IndexError | x # _ \<Rightarrow> Inr x)"

text \<open>\<open>re.sub("[^0-9]", "", s)\<close>.\<close>

definition strip_non_digits :: "string \<Rightarrow> string" where
  "strip_non_digits s = filter is_digit s"

section \<open>The price normalizer\<close>

text \<open>
  \<^verbatim>\<open>return re.sub("[^0-9]", "", price.split(".")[0])\<close>
  A value other than text has no \<open>split\<close>: the attribute lookup raises.
\<close>

fun price_conversion :: "pyval \<Rightarrow> pyerr + string" where
  "price_conversion (PStr s) =
     (case item0 (split_on CHR ''.'' s) of
        Inl e \<Rightarrow> Inl e
      | Inr p \<Rightarrow> Inr (strip_non_digits p))"
| "price_conversion v = Inl AttributeError"

text \<open>The Cyrillic currency word of the distributor's price column, in UTF-8.\<close>

definition rub :: string where
  "rub = [CHR 0xD1, CHR 0x80, CHR 0xD1, CHR 0x83, CHR 0xD0, CHR 0xB1]"

section \<open>Records and update entries\<close>

text \<open>
  A row of the distributor's file is a dict read with \<open>watch.get(key)\<close>, which gives
  \<open>None\<close> for a key that is absent: the three fields are the values under the keys
  for code, quantity and price, \<open>PNone\<close> when the row has no such key.
\<close>

record watch =
  kod :: pyval
  kolichestvo :: pyval
  tsena :: pyval

record entry =
  offer_id :: string

record stock_entry = entry +
  stock :: int

record price_entry = entry +
  auto_action_enabled :: string
  currency_code :: string
  old_price :: string
  price :: string

section \<open>The stock reconciler\<close>

text \<open>
  \<^verbatim>\<open>
  count = str(watch.get(QUANTITY))
  if count == ">10":  stock = 100
  elif count == "1":  stock = 0
  else:               stock = int(watch.get(QUANTITY))
  \<close>
\<close>

definition stock_of :: "pyval \<Rightarrow> pyerr + int" where
  "stock_of q =
     (let count = py_str q in
      if count = ''>10'' then Inr 100
      else if count = ''1'' then Inr 0
      else py_int q)"

text \<open>
  The first loop of \<open>create_stocks\<close>. The list \<open>offer_ids\<close> is the caller's object and
  \<open>offer_ids.remove(x)\<close> deletes the first element equal to \<open>x\<close> from it, so the loop
  returns the list as it leaves it, also when \<open>int()\<close> raises on the way.
  \<open>remove\<close> cannot raise here: the membership test guards it.
\<close>

fun create_stocks_loop ::
  "watch list \<Rightarrow> stock_entry list \<Rightarrow> string list \<Rightarrow> (pyerr + stock_entry list) \<times> string list"
where
  "create_stocks_loop [] stocks offer_ids = (Inr stocks, offer_ids)"
| "create_stocks_loop (w # ws) stocks offer_ids =
     (if py_str (kod w) \<in> set offer_ids then
        (case stock_of (kolichestvo w) of
           Inl e \<Rightarrow> (Inl e, offer_ids)
         | Inr s \<Rightarrow>
             create_stocks_loop ws
               (stocks @ [\<lparr>offer_id = py_str (kod w), stock = s\<rparr>])
               (remove1 (py_str (kod w)) offer_ids))
      else create_stocks_loop ws stocks offer_ids)"

definition create_stocks ::
  "watch list \<Rightarrow> string list \<Rightarrow> (pyerr + stock_entry list) \<times> string list"
where
  "create_stocks watch_remnants offer_ids =
     (case create_stocks_loop watch_remnants [] offer_ids of
        (Inl e, ids) \<Rightarrow> (Inl e, ids)
      | (Inr stocks, ids) \<Rightarrow>
          (Inr (stocks @ map (\<lambda>i. \<lparr>offer_id = i, stock = 0\<rparr>) ids), ids))"

section \<open>The price reconciler\<close>

fun create_prices_loop ::
  "watch list \<Rightarrow> price_entry list \<Rightarrow> string list \<Rightarrow> pyerr + price_entry list"
where
  "create_prices_loop [] prices offer_ids = Inr prices"
| "create_prices_loop (w # ws) prices offer_ids =
     (if py_str (kod w) \<in> set offer_ids then
        (case price_conversion (tsena w) of
           Inl e \<Rightarrow> Inl e
         | Inr p \<Rightarrow>
             create_prices_loop ws
               (prices @ [\<lparr>offer_id = py_str (kod w), auto_action_enabled = ''UNKNOWN'',
                            currency_code = ''RUB'', old_price = ''0'', price = p\<rparr>])
               offer_ids)
      else create_prices_loop ws prices offer_ids)"

text \<open>
  \<open>create_prices\<close> only reads \<open>offer_ids\<close>; it returns the list beside its result, as
  \<open>create_stocks\<close> does, so that callers thread one list object through both.
\<close>

definition create_prices ::
  "watch list \<Rightarrow> string list \<Rightarrow> (pyerr + price_entry list) \<times> string list"
where
  "create_prices watch_remnants offer_ids =
     (create_prices_loop watch_remnants [] offer_ids, offer_ids)"

section \<open>The chunking utility\<close>

text \<open>\<open>range(start, stop, step)\<close>: a step of zero raises, a step that leads away from
  \<open>stop\<close> gives no element.\<close>

function range_from :: "int \<Rightarrow> int \<Rightarrow> int \<Rightarrow> int list" where
  "range_from i stop step =
     (if 0 < step \<and> i < stop then i # range_from (i + step) stop step
      else if step < 0 \<and> stop < i then i # range_from (i + step) stop step
      else [])"
  by pat_completeness auto
termination
  by (relation "measure (\<lambda>(i, stop, step). if 0 < step then nat (stop - i) else nat (i - stop))")
     auto

declare range_from.simps [simp del]

definition py_range :: "int \<Rightarrow> int \<Rightarrow> int \<Rightarrow> pyerr + int list" where
  "py_range start stop step =
     (if step = 0 then Inl ValueError else Inr (range_from start stop step))"

text \<open>\<open>lst[i:j]\<close>: a negative bound counts from the end, and both bounds are clipped to
  the list.\<close>

definition slice_bound :: "nat \<Rightarrow> int \<Rightarrow> nat" where
  "slice_bound len k = (if k < 0 then nat (max 0 (int len + k)) else min (nat k) len)"

definition py_slice :: "'a list \<Rightarrow> int \<Rightarrow> int \<Rightarrow> 'a list" where
  "py_slice lst i j =
     (let a = slice_bound (length lst) i; b = slice_bound (length lst) j
      in take (b - a) (drop a lst))"

text \<open>
  \<^verbatim>\<open>
  for i in range(0, len(lst), n):
      yield lst[i : i + n]
  \<close>
  Every caller consumes the generator at once with \<open>list(divide(lst, n))\<close>; the model is
  that list, or the exception raised while it is built.
\<close>

definition divide :: "'a list \<Rightarrow> int \<Rightarrow> pyerr + 'a list list" where
  "divide lst n =
     (case py_range 0 (int (length lst)) n of
        Inl e \<Rightarrow> Inl e
      | Inr is \<Rightarrow> Inr (map (\<lambda>i. py_slice lst i (i + n)) is))"

section \<open>The orchestrator\<close>

text \<open>
  The marketplace and the distributor's site are outside the model: a run is given the
  list that \<open>get_offer_ids\<close> returned and the rows that \<open>download_stock\<close> returned, and
  its outcome is the sequence of update requests it sends, each taken to be accepted,
  with the exception that ended it, if any.
\<close>

datatype request = UpdateStocks "stock_entry list" | UpdatePrice "price_entry list"

text \<open>
  \<^verbatim>\<open>
  offer_ids = get_offer_ids(client_id, seller_token)
  watch_remnants = download_stock()
  stocks = create_stocks(watch_remnants, offer_ids)
  for some_stock in list(divide(stocks, 100)):
      update_stocks(some_stock, client_id, seller_token)
  prices = create_prices(watch_remnants, offer_ids)
  for some_price in list(divide(prices, 900)):
      update_price(some_price, client_id, seller_token)
  \<close>
  inside \<open>try\<close>, where \<open>except Exception\<close> prints the error and ends the run.
\<close>

definition main :: "string list \<Rightarrow> watch list \<Rightarrow> request list \<times> pyerr option" where
  "main fetched_ids watch_remnants =
     (case create_stocks watch_remnants fetched_ids of
        (Inl e, offer_ids) \<Rightarrow> ([], Some e)
      | (Inr stocks, offer_ids) \<Rightarrow>
          (case divide stocks 100 of
             Inl e \<Rightarrow> ([], Some e)
           | Inr stock_chunks \<Rightarrow>
               (case create_prices watch_remnants offer_ids of
                  (Inl e, offer_ids') \<Rightarrow> (map UpdateStocks stock_chunks, Some e)
                | (Inr prices, offer_ids') \<Rightarrow>
                    (case divide prices 900 of
                       Inl e \<Rightarrow> (map UpdateStocks stock_chunks, Some e)
                     | Inr price_chunks \<Rightarrow>
                         (map UpdateStocks stock_chunks @ map UpdatePrice price_chunks,
                          None)))))"

text \<open>
  \<^verbatim>\<open>
  offer_ids = get_offer_ids(client_id, seller_token)
  prices = create_prices(watch_remnants, offer_ids)
  for some_price in list(divide(prices, 1000)):
      update_price(some_price, client_id, seller_token)
  return prices
  \<close>
  Nothing is caught here: an exception leaves the function.
\<close>

definition upload_prices ::
  "string list \<Rightarrow> watch list \<Rightarrow> request list \<times> (pyerr + price_entry list)"
where
  "upload_prices fetched_ids watch_remnants =
     (case create_prices watch_remnants fetched_ids of
        (Inl e, offer_ids) \<Rightarrow> ([], Inl e)
      | (Inr prices, offer_ids) \<Rightarrow>
          (case divide prices 1000 of
             Inl e \<Rightarrow> ([], Inl e)
           | Inr price_chunks \<Rightarrow> (map UpdatePrice price_chunks, Inr prices)))"

text \<open>
  \<^verbatim>\<open>
  offer_ids = get_offer_ids(client_id, seller_token)
  stocks = create_stocks(watch_remnants, offer_ids)
  for some_stock in list(divide(stocks, 100)):
      update_stocks(some_stock, client_id, seller_token)
  not_empty = list(filter(lambda stock: (stock.get("stock") != 0), stocks))
  return not_empty, stocks
  \<close>
\<close>

definition upload_stocks ::
  "string list \<Rightarrow> watch list
    \<Rightarrow> request list \<times> (pyerr + stock_entry list \<times> stock_entry list)"
where
  "upload_stocks fetched_ids watch_remnants =
     (case create_stocks watch_remnants fetched_ids of
        (Inl e, offer_ids) \<Rightarrow> ([], Inl e)
      | (Inr stocks, offer_ids) \<Rightarrow>
          (case divide stocks 100 of
             Inl e \<Rightarrow> ([], Inl e)
           | Inr stock_chunks \<Rightarrow>
               (map UpdateStocks stock_chunks,
                Inr (filter (\<lambda>s. stock s \<noteq> 0) stocks, stocks))))"

section \<open>What the stock reconciler matches\<close>

text \<open>
  The stock reconciler takes an identifier out of its working list each time a record
  finds its code there. Said without the loop: record \<open>i\<close> is matched when fewer
  records before it carry its code than the list has copies of that code (with a list
  free of repetitions: when its code is listed and no earlier record has it, so the
  first match wins); and the identifier at position \<open>j\<close> is left over when at least as
  many copies of it stand before it in the list as there are records with that code
  (with a list free of repetitions: when no record has that code).
\<close>

definition matched_records :: "watch list \<Rightarrow> string list \<Rightarrow> watch list" where
  "matched_records w ids =
     map ((!) w)
       (filter (\<lambda>i. count_list (map (\<lambda>r. py_str (kod r)) (take i w)) (py_str (kod (w ! i)))
                      < count_list ids (py_str (kod (w ! i))))
          [0..<length w])"

definition remaining_ids :: "watch list \<Rightarrow> string list \<Rightarrow> string list" where
  "remaining_ids w ids =
     map ((!) ids)
       (filter (\<lambda>j. count_list (map (\<lambda>r. py_str (kod r)) w) (ids ! j)
                      \<le> count_list (take j ids) (ids ! j))
          [0..<length ids])"

text \<open>The same selection of identifiers, walking the list with the part already passed.\<close>

fun keep_from :: "string list \<Rightarrow> string list \<Rightarrow> string list \<Rightarrow> string list" where
  "keep_from ks pre [] = []"
| "keep_from ks pre (x # xs) =
     (if count_list ks x \<le> count_list pre x then x # keep_from ks (pre @ [x]) xs
      else keep_from ks (pre @ [x]) xs)"

section \<open>Properties of the price normalizer\<close>

lemma item0_split_on: "item0 (split_on c s) = Inr (takeWhile (\<lambda>x. x \<noteq> c) s)"
  by (induction s) (auto simp: item0_def split: list.splits)

lemma price_conversion_text:
  "price_conversion (PStr s) = Inr (filter is_digit (takeWhile (\<lambda>c. c \<noteq> CHR ''.'') s))"
  by (simp add: item0_split_on strip_non_digits_def)

text \<open>
  Claim C6. On text the price normalizer returns the ASCII digits of the part before
  the first full stop, everything else deleted: 13899 and 5990 for the two documented
  prices, 1 for a price with dots as thousands separators, and the empty string when
  no digit stands before the first full stop.
\<close>

theorem price_conversion_before_first_dot:
  "price_conversion (PStr s) = Inr (filter is_digit (takeWhile (\<lambda>c. c \<noteq> CHR ''.'') s))
   \<and> price_conversion (PStr (''13'899.99 '' @ rub @ ''.'')) = Inr ''13899''
   \<and> price_conversion (PStr (''5'990.00 '' @ rub @ ''.'')) = Inr ''5990''
   \<and> price_conversion (PStr (''1.234.567 '' @ rub @ ''.'')) = Inr ''1''
   \<and> ((\<forall>c \<in> set (takeWhile (\<lambda>c. c \<noteq> CHR ''.'') s). \<not> is_digit c)
        \<longrightarrow> price_conversion (PStr s) = Inr [])"
proof -
  note gen = price_conversion_text
  have e1: "price_conversion (PStr (''13'899.99 '' @ rub @ ''.'')) = Inr ''13899''"
    unfolding gen by (simp add: rub_def is_digit_def)
  have e2: "price_conversion (PStr (''5'990.00 '' @ rub @ ''.'')) = Inr ''5990''"
    unfolding gen by (simp add: rub_def is_digit_def)
  have e3: "price_conversion (PStr (''1.234.567 '' @ rub @ ''.'')) = Inr ''1''"
    unfolding gen by (simp add: rub_def is_digit_def)
  have e4: "(\<forall>c \<in> set (takeWhile (\<lambda>c. c \<noteq> CHR ''.'') s). \<not> is_digit c)
        \<longrightarrow> price_conversion (PStr s) = Inr []"
    unfolding gen by (simp add: filter_empty_conv)
  from gen e1 e2 e3 e4 show ?thesis by blast
qed

theorem price_conversion_before_first_dot_witness:
  "list_all (\<lambda>c. \<not> is_digit c) (takeWhile (\<lambda>c. c \<noteq> CHR ''.'') (''- '' @ rub @ ''.05''))
   \<and> price_conversion (PStr (''- '' @ rub @ ''.05'')) = Inr []"
  using price_conversion_before_first_dot [of "''- '' @ rub @ ''.05''"]
  by (simp add: rub_def is_digit_def)

text \<open>
  Claim C7. On a value that is not text (None, an integer, a float) the price
  normalizer raises, the AttributeError of the missing \<open>split\<close>; it returns no string.
\<close>

theorem price_conversion_rejects_non_text:
  "\<not> is_PStr v \<Longrightarrow> price_conversion v = Inl AttributeError"
  by (cases v) simp_all

theorem price_conversion_rejects_non_text_witness:
  "\<not> is_PStr (PFloat ''6300.5'' (Inr 6300))
   \<and> price_conversion (PFloat ''6300.5'' (Inr 6300)) = Inl AttributeError
   \<and> \<not> is_PStr (PInt 6300) \<and> price_conversion (PInt 6300) = Inl AttributeError
   \<and> \<not> is_PStr PNone \<and> price_conversion PNone = Inl AttributeError"
  using price_conversion_rejects_non_text [of "PFloat ''6300.5'' (Inr 6300)"]
    price_conversion_rejects_non_text [of "PInt 6300"]
    price_conversion_rejects_non_text [of PNone]
  by simp

section \<open>Properties of the chunking utility\<close>

lemma py_slice_chunk:
  "0 \<le> i \<Longrightarrow> 0 < n \<Longrightarrow> py_slice S i (i + n) = take (nat n) (drop (nat i) S)"
  by (auto simp: py_slice_def slice_bound_def Let_def min_def nat_add_distrib)

lemma range_from_up:
  "0 < n \<Longrightarrow> range_from i L n = (if i < L then i # range_from (i + n) L n else [])"
  by (subst range_from.simps) simp

lemma chunks_concat:
  "0 < n \<Longrightarrow> 0 \<le> i \<Longrightarrow>
   concat (map (\<lambda>i. py_slice S i (i + n)) (range_from i (int (length S)) n)) = drop (nat i) S"
proof (induction i "int (length S)" n rule: range_from.induct)
  case (1 i n)
  show ?case
  proof (cases "i < int (length S)")
    case True
    have "concat (map (\<lambda>i. py_slice S i (i + n)) (range_from (i + n) (int (length S)) n))
          = drop (nat (i + n)) S"
      using 1 True by simp
    moreover have "drop (nat (i + n)) S = drop (nat n) (drop (nat i) S)"
      using 1 by (simp add: nat_add_distrib add.commute)
    ultimately have "take (nat n) (drop (nat i) S)
        @ concat (map (\<lambda>i. py_slice S i (i + n)) (range_from (i + n) (int (length S)) n))
        = drop (nat i) S"
      by (simp only: append_take_drop_id)
    then show ?thesis
      using 1 True by (subst range_from_up) (simp_all add: py_slice_chunk)
  next
    case False
    then show ?thesis using 1 by (subst range_from_up) simp_all
  qed
qed

lemma chunks_butlast:
  "0 < n \<Longrightarrow> 0 \<le> i \<Longrightarrow>
   c \<in> set (butlast (map (\<lambda>i. py_slice S i (i + n)) (range_from i (int (length S)) n)))
   \<Longrightarrow> length c = nat n"
proof (induction i "int (length S)" n rule: range_from.induct)
  case (1 i n)
  let ?rest = "map (\<lambda>i. py_slice S i (i + n)) (range_from (i + n) (int (length S)) n)"
  show ?case
  proof (cases "i < int (length S)")
    case True
    then have eq: "map (\<lambda>i. py_slice S i (i + n)) (range_from i (int (length S)) n)
        = py_slice S i (i + n) # ?rest"
      using 1(3) by (subst range_from_up) simp_all
    show ?thesis
    proof (cases "?rest = []")
      case True
      then show ?thesis using 1(5) eq by simp
    next
      case False
      then have "i + n < int (length S)"
        using 1(3) by (subst (asm) range_from_up) (auto split: if_splits)
      then have "length (py_slice S i (i + n)) = nat n"
        using 1(3,4) by (simp add: py_slice_chunk)
      moreover have "c \<in> set (butlast ?rest) \<Longrightarrow> length c = nat n"
        using 1 True by simp
      ultimately show ?thesis using 1(5) eq False by auto
    qed
  next
    case False
    then show ?thesis using 1 by (subst (asm) (2) range_from_up) simp_all
  qed
qed

lemma chunks_last:
  "0 < n \<Longrightarrow> 0 \<le> i \<Longrightarrow> i < int (length S) \<Longrightarrow>
   length (last (map (\<lambda>i. py_slice S i (i + n)) (range_from i (int (length S)) n)))
     = (if (length S - nat i) mod nat n = 0 then nat n else (length S - nat i) mod nat n)"
proof (induction i "int (length S)" n rule: range_from.induct)
  case (1 i n)
  let ?rest = "map (\<lambda>i. py_slice S i (i + n)) (range_from (i + n) (int (length S)) n)"
  have eq: "map (\<lambda>i. py_slice S i (i + n)) (range_from i (int (length S)) n)
        = py_slice S i (i + n) # ?rest"
    using 1(3,5) by (subst range_from_up) simp_all
  show ?case
  proof (cases "i + n < int (length S)")
    case True
    then have ne: "?rest \<noteq> []"
      using 1(3) by (subst range_from_up) simp_all
    have "length (last ?rest) =
        (if (length S - nat (i + n)) mod nat n = 0 then nat n
         else (length S - nat (i + n)) mod nat n)"
      using 1 True by simp
    moreover have "length S - nat (i + n) = (length S - nat i) - nat n"
      using 1(3,4) by (simp add: nat_add_distrib)
    moreover have "nat n \<le> length S - nat i"
      using True 1(3,4) by linarith
    ultimately show ?thesis
      using eq ne by (simp add: le_mod_geq)
  next
    case False
    then have "?rest = []"
      using 1(3) by (subst range_from_up) simp_all
    moreover have "length (py_slice S i (i + n)) = length S - nat i"
      using False 1(3,4,5) by (simp add: py_slice_chunk)
    moreover have "length S - nat i \<le> nat n" "0 < length S - nat i"
      using False 1(3,4,5) by linarith+
    ultimately show ?thesis
      using eq by (cases "length S - nat i = nat n") simp_all
  qed
qed

text \<open>
  Claim C4. For a positive chunk size the chunks, concatenated, are the list itself
  (every element once, in its place); every chunk but the last has exactly the chunk
  size, and the last has the remainder of the length, or the full size when the size
  divides the length.
\<close>

theorem divide_chunks:
  assumes "0 < n"
  shows "\<exists>chunks. divide S n = Inr chunks
           \<and> concat chunks = S
           \<and> (\<forall>c \<in> set (butlast chunks). length c = nat n)
           \<and> (chunks \<noteq> [] \<longrightarrow>
                length (last chunks) =
                  (if length S mod nat n = 0 then nat n else length S mod nat n))"
proof -
  let ?chunks = "map (\<lambda>i. py_slice S i (i + n)) (range_from 0 (int (length S)) n)"
  have d: "divide S n = Inr ?chunks"
    using assms by (simp add: divide_def py_range_def)
  have c: "concat ?chunks = S"
    using chunks_concat [of n 0 S] assms by simp
  have b: "\<forall>c \<in> set (butlast ?chunks). length c = nat n"
    using chunks_butlast [of n 0 _ S] assms by blast
  have l: "?chunks \<noteq> [] \<longrightarrow> length (last ?chunks) =
                  (if length S mod nat n = 0 then nat n else length S mod nat n)"
  proof
    assume "?chunks \<noteq> []"
    then have "0 < int (length S)"
      using assms by (subst (asm) range_from_up) (auto split: if_splits)
    then show "length (last ?chunks) =
                  (if length S mod nat n = 0 then nat n else length S mod nat n)"
      using chunks_last [of n 0 S] assms by simp
  qed
  from d c b l show ?thesis by blast
qed

theorem divide_chunks_witness:
  "(0::int) < 2 \<and> divide [1, 2, 3, 4, 5 :: int] 2 = Inr [[1, 2], [3, 4], [5]]
   \<and> concat [[1, 2], [3, 4], [5 :: int]] = [1, 2, 3, 4, 5]"
  using divide_chunks [of 2 "[1, 2, 3, 4, 5 :: int]"]
  by (simp add: divide_def py_range_def range_from.simps py_slice_def slice_bound_def)

text \<open>
  Claim C5. The claim wants an error for every chunk size that is not positive. The
  code raises for the size zero only: with a negative size the range is empty, and
  the chunks of a list of three elements are the empty list, without any error.
\<close>

theorem divide_negative_step_yields_nothing:
  "divide [1, 2, 3 :: int] (- 1) = Inr [] \<and> divide [1, 2, 3 :: int] 0 = Inl ValueError"
  by (simp add: divide_def py_range_def range_from.simps)

section \<open>Properties of the stock reconciler\<close>

lemma count_list_remove1:
  "count_list (remove1 k xs) x = (if x = k then count_list xs k - 1 else count_list xs x)"
  by (induction xs) auto

lemma upt_Suc_shift: "[0..<Suc n] = 0 # map Suc [0..<n]"
  by (simp add: upt_conv_Cons map_Suc_upt del: upt_Suc)

lemma matched_records_Nil: "matched_records [] ids = []"
  by (simp add: matched_records_def)

lemma matched_records_Cons:
  "matched_records (r # rs) ids =
     (if py_str (kod r) \<in> set ids
      then r # matched_records rs (remove1 (py_str (kod r)) ids)
      else matched_records rs ids)"
proof -
  let ?k = "py_str (kod r)"
  let ?key = "\<lambda>r. py_str (kod r)"
  let ?P = "\<lambda>ids' i. count_list (map ?key (take i rs)) (?key (rs ! i)) < count_list ids' (?key (rs ! i))"
  let ?Q = "\<lambda>i. count_list (map ?key (take (Suc i) (r # rs))) (?key ((r # rs) ! Suc i))
                  < count_list ids (?key ((r # rs) ! Suc i))"
  have split: "matched_records (r # rs) ids =
      (if ?k \<in> set ids then [r] else []) @ map ((!) rs) (filter ?Q [0..<length rs])"
    unfolding matched_records_def length_Cons upt_Suc_shift
    by (simp add: filter_map comp_def count_list_0_iff)
  show ?thesis
  proof (cases "?k \<in> set ids")
    case True
    have "filter ?Q [0..<length rs] = filter (?P (remove1 ?k ids)) [0..<length rs]"
      using True by (intro filter_cong) (auto simp: count_list_remove1 count_list_0_iff)
    then show ?thesis using True split by (simp add: matched_records_def)
  next
    case False
    have "filter ?Q [0..<length rs] = filter (?P ids) [0..<length rs]"
      using False by (intro filter_cong) (auto simp: count_list_0_iff)
    then show ?thesis using False split by (simp add: matched_records_def)
  qed
qed

lemma keep_from_index:
  "map ((!) (pre @ xs))
     (filter (\<lambda>j. count_list ks ((pre @ xs) ! j) \<le> count_list (take j (pre @ xs)) ((pre @ xs) ! j))
        [length pre..<length pre + length xs])
   = keep_from ks pre xs"
proof (induction xs arbitrary: pre)
  case Nil
  then show ?case by simp
next
  case (Cons x xs)
  let ?F = "\<lambda>zs js. map ((!) zs)
     (filter (\<lambda>j. count_list ks (zs ! j) \<le> count_list (take j zs) (zs ! j)) js)"
  have u: "[length pre..<length pre + length (x # xs)]
        = length pre # [length (pre @ [x])..<length (pre @ [x]) + length xs]"
    by (subst upt_conv_Cons) simp_all
  have "?F (pre @ x # xs) [length pre..<length pre + length (x # xs)]
      = ?F (pre @ x # xs) (length pre # [length (pre @ [x])..<length (pre @ [x]) + length xs])"
    by (simp only: u)
  also have "\<dots> = (if count_list ks x \<le> count_list pre x then [x] else [])
      @ ?F (pre @ x # xs) [length (pre @ [x])..<length (pre @ [x]) + length xs]"
    by simp
  also have "?F (pre @ x # xs) [length (pre @ [x])..<length (pre @ [x]) + length xs]
      = ?F ((pre @ [x]) @ xs) [length (pre @ [x])..<length (pre @ [x]) + length xs]"
    by simp
  also have "\<dots> = keep_from ks (pre @ [x]) xs"
    by (rule Cons.IH)
  finally show ?case by simp
qed

lemma remaining_ids_keep_from:
  "remaining_ids w ids = keep_from (map (\<lambda>r. py_str (kod r)) w) [] ids"
  using keep_from_index [of "[]" ids] by (simp add: remaining_ids_def)

lemma keep_from_shift:
  "(\<And>y. count_list pre1 y = count_list pre2 y + (if y = k then 1 else 0)) \<Longrightarrow>
   keep_from (k # ks) pre1 zs = keep_from ks pre2 zs"
  by (induction zs arbitrary: pre1 pre2) auto

lemma keep_from_absent:
  "k \<notin> set zs \<Longrightarrow> keep_from (k # ks) pre zs = keep_from ks pre zs"
  by (induction zs arbitrary: pre) auto

lemma keep_from_first:
  "k \<notin> set pre \<Longrightarrow> k \<notin> set xs \<Longrightarrow>
   keep_from (k # ks) pre (xs @ k # ys) = keep_from ks pre (xs @ ys)"
proof (induction xs arbitrary: pre)
  case Nil
  have "keep_from (k # ks) (pre @ [k]) ys = keep_from ks pre ys"
    by (rule keep_from_shift) simp
  then show ?case using Nil by simp
next
  case (Cons x xs)
  then show ?case by auto
qed

lemma remaining_ids_Nil: "remaining_ids [] ids = ids"
  unfolding remaining_ids_keep_from
proof -
  have "keep_from [] pre xs = xs" for pre xs
    by (induction xs arbitrary: pre) auto
  then show "keep_from (map (\<lambda>r. py_str (kod r)) []) [] ids = ids" by simp
qed

lemma remaining_ids_Cons:
  "remaining_ids (r # rs) ids =
     (if py_str (kod r) \<in> set ids
      then remaining_ids rs (remove1 (py_str (kod r)) ids)
      else remaining_ids rs ids)"
proof (cases "py_str (kod r) \<in> set ids")
  case True
  then obtain xs ys where ids: "ids = xs @ py_str (kod r) # ys" "py_str (kod r) \<notin> set xs"
    by (meson split_list_first)
  then have "remove1 (py_str (kod r)) ids = xs @ ys"
    by (simp add: remove1_append)
  then show ?thesis
    using True ids keep_from_first [of "py_str (kod r)" "[]" xs]
    by (simp add: remaining_ids_keep_from)
next
  case False
  then show ?thesis by (simp add: remaining_ids_keep_from keep_from_absent)
qed

lemma create_stocks_loop_ok:
  "\<forall>r \<in> set (matched_records w ids). \<exists>s. stock_of (kolichestvo r) = Inr s \<Longrightarrow>
   create_stocks_loop w acc ids =
     (Inr (acc @ map (\<lambda>r. \<lparr>offer_id = py_str (kod r), stock = projr (stock_of (kolichestvo r))\<rparr>)
                   (matched_records w ids)),
      remaining_ids w ids)"
proof (induction w arbitrary: acc ids)
  case Nil
  then show ?case by (simp add: matched_records_Nil remaining_ids_Nil)
next
  case (Cons r rs)
  show ?case
  proof (cases "py_str (kod r) \<in> set ids")
    case True
    then have m: "matched_records (r # rs) ids = r # matched_records rs (remove1 (py_str (kod r)) ids)"
      by (simp add: matched_records_Cons)
    with Cons.prems obtain s where s: "stock_of (kolichestvo r) = Inr s"
      by auto
    have "\<forall>r' \<in> set (matched_records rs (remove1 (py_str (kod r)) ids)).
            \<exists>s. stock_of (kolichestvo r') = Inr s"
      using Cons.prems m by simp
    from Cons.IH [OF this] show ?thesis
      using True s m by (simp add: remaining_ids_Cons)
  next
    case False
    then have m: "matched_records (r # rs) ids = matched_records rs ids"
      by (simp add: matched_records_Cons)
    with Cons.prems have "\<forall>r' \<in> set (matched_records rs ids). \<exists>s. stock_of (kolichestvo r') = Inr s"
      by simp
    from Cons.IH [OF this] show ?thesis
      using False m by (simp add: remaining_ids_Cons)
  qed
qed

lemma create_stocks_loop_fails:
  "r \<in> set (matched_records w ids) \<Longrightarrow> stock_of (kolichestvo r) = Inl e0 \<Longrightarrow>
   \<exists>e r'. fst (create_stocks_loop w acc ids) = Inl e \<and> r' \<in> set w
          \<and> stock_of (kolichestvo r') = Inl e"
proof (induction w arbitrary: acc ids)
  case Nil
  then show ?case by (simp add: matched_records_Nil)
next
  case (Cons x xs)
  show ?case
  proof (cases "py_str (kod x) \<in> set ids")
    case True
    note inl = True
    show ?thesis
    proof (cases "stock_of (kolichestvo x)")
      case (Inl e)
      then show ?thesis using inl by auto
    next
      case (Inr s)
      with Cons.prems inl have "r \<in> set (matched_records xs (remove1 (py_str (kod x)) ids))"
        by (auto simp: matched_records_Cons)
      from Cons.IH [OF this Cons.prems(2), of "acc @ [\<lparr>offer_id = py_str (kod x), stock = s\<rparr>]"]
      obtain e r' where "fst (create_stocks_loop xs (acc @ [\<lparr>offer_id = py_str (kod x), stock = s\<rparr>])
            (remove1 (py_str (kod x)) ids)) = Inl e" "r' \<in> set xs" "stock_of (kolichestvo r') = Inl e"
        by blast
      then have "fst (create_stocks_loop (x # xs) acc ids) = Inl e \<and> r' \<in> set (x # xs)
          \<and> stock_of (kolichestvo r') = Inl e"
        using inl Inr by simp
      then show ?thesis by blast
    qed
  next
    case False
    with Cons.prems have "r \<in> set (matched_records xs ids)"
      by (simp add: matched_records_Cons)
    from Cons.IH [OF this Cons.prems(2), of acc]
    obtain e r' where "fst (create_stocks_loop xs acc ids) = Inl e" "r' \<in> set xs"
        "stock_of (kolichestvo r') = Inl e"
      by blast
    then have "fst (create_stocks_loop (x # xs) acc ids) = Inl e \<and> r' \<in> set (x # xs)
        \<and> stock_of (kolichestvo r') = Inl e"
      using False by simp
    then show ?thesis by blast
  qed
qed



lemma remaining_ids_distinct:
  assumes "distinct ids"
  shows "remaining_ids w ids = filter (\<lambda>x. x \<notin> (\<lambda>r. py_str (kod r)) ` set w) ids"
proof -
  let ?ks = "map (\<lambda>r. py_str (kod r)) w"
  have "j < length ids \<Longrightarrow> count_list (take j ids) (ids ! j) = 0" for j
    using assms by (simp add: count_list_0_iff distinct_conv_nth in_set_conv_nth) 
  then have "filter (\<lambda>j. count_list ?ks (ids ! j) \<le> count_list (take j ids) (ids ! j)) [0..<length ids]
      = filter ((\<lambda>x. x \<notin> set ?ks) \<circ> (!) ids) [0..<length ids]"
    by (intro filter_cong) (auto simp: count_list_0_iff)
  then have "remaining_ids w ids = filter (\<lambda>x. x \<notin> set ?ks) (map ((!) ids) [0..<length ids])"
    by (simp add: remaining_ids_def filter_map)
  then show ?thesis by (simp add: map_nth)
qed








text \<open>
  Claim C3. The claim bounds every stock by 100. A quantity written with digits
  is passed through \<open>int()\<close> unchanged: the quantity 101 gives the stock 101.
\<close>

theorem create_stocks_above_hundred:
  "fst (create_stocks [\<lparr>kod = PStr ''A'', kolichestvo = PStr ''101'', tsena = PNone\<rparr>] [''A''])
     = Inr [\<lparr>offer_id = ''A'', stock = 101\<rparr>]"
  by (simp add: create_stocks_def stock_of_def int_of_str_def strip_def is_space_def
      is_digit_def digit_val_def)

section \<open>Properties of the price reconciler\<close>










section \<open>Properties of the orchestrator\<close>

lemma create_stocks_loop_Inr:
  assumes "create_stocks_loop w acc ids = (Inr ms, ids')"
  shows "ids' = remaining_ids w ids"
proof -
  have "\<forall>r \<in> set (matched_records w ids). \<exists>s. stock_of (kolichestvo r) = Inr s"
  proof (rule ccontr)
    assume "\<not> ?thesis"
    then obtain r e where "r \<in> set (matched_records w ids)" "stock_of (kolichestvo r) = Inl e"
      by (metis sum.exhaust)
    from create_stocks_loop_fails [OF this, of acc] assms show False by simp
  qed
  from create_stocks_loop_ok [OF this, of acc] assms show ?thesis by simp
qed

lemma create_prices_loop_no_match:
  "\<forall>r \<in> set w. py_str (kod r) \<notin> set ids \<Longrightarrow> create_prices_loop w acc ids = Inr acc"
  by (induction w arbitrary: acc) simp_all

text \<open>
  With a fetched list free of repetitions the defect of \<open>main\<close> is complete: whatever
  the file holds, the run sends no price at all.
\<close>

lemma main_never_sends_a_price:
  assumes "distinct ids"
  shows "UpdatePrice p \<notin> set (fst (main ids w))"
proof (cases "create_stocks_loop w [] ids")
  case (Pair res ids')
  show ?thesis
  proof (cases res)
    case (Inl e)
    with Pair show ?thesis by (simp add: main_def create_stocks_def)
  next
    case (Inr ms)
    with Pair have "ids' = remaining_ids w ids"
      using create_stocks_loop_Inr by blast
    then have "ids' = filter (\<lambda>x. x \<notin> (\<lambda>r. py_str (kod r)) ` set w) ids"
      using assms by (simp add: remaining_ids_distinct)
    then have "\<forall>r \<in> set w. py_str (kod r) \<notin> set ids'"
      by auto
    then have "create_prices w ids' = (Inr [], ids')"
      by (simp add: create_prices_def create_prices_loop_no_match)
    moreover have "divide ([] :: price_entry list) 900 = Inr []"
      by (simp add: divide_def py_range_def range_from.simps)
    ultimately show ?thesis
      using Pair Inr by (auto simp: main_def create_stocks_def split: sum.splits)
  qed
qed

text \<open>
  Claim C1. The claim wants a price entry sent for every record whose code is among
  the fetched identifiers. In \<open>main\<close> the price reconciler gets the list that the
  stock reconciler has emptied of every matched identifier: for one listed record the
  run sends its stock and no price, where \<open>upload_prices\<close>, on the same data with a
  list of its own, sends the price.
\<close>

theorem main_sends_no_price:
  "main [''A''] [\<lparr>kod = PStr ''A'', kolichestvo = PStr ''5'', tsena = PStr ''100.00''\<rparr>]
     = ([UpdateStocks [\<lparr>offer_id = ''A'', stock = 5\<rparr>]], None)
   \<and> fst (upload_prices [''A'']
            [\<lparr>kod = PStr ''A'', kolichestvo = PStr ''5'', tsena = PStr ''100.00''\<rparr>])
     = [UpdatePrice [\<lparr>offer_id = ''A'', auto_action_enabled = ''UNKNOWN'',
                      currency_code = ''RUB'', old_price = ''0'', price = ''100''\<rparr>]]"
  by (simp add: main_def upload_prices_def create_stocks_def create_prices_def stock_of_def
      int_of_str_def strip_def is_space_def is_digit_def digit_val_def divide_def py_range_def
      range_from.simps py_slice_def slice_bound_def item0_def strip_non_digits_def)

end
